theory Spec2Isabelle
  imports
    Complex_Main
    "HOL-Library.Word"
    "HOL-Library.Signed_Division"
    "HOL-Library.Char_ord"
    "HOL-Library.List_Lexorder"
begin

unbundle bit_operations_syntax

section \<open>Go values used by server/api/helpers.go\<close>

text \<open>
  Go's \<^verbatim>\<open>int32\<close> is a 32-bit word read in two's complement: \<open>+\<close>, \<open>-\<close> and \<open>*\<close>
  wrap around, \<open>/\<close> truncates towards zero and panics on a zero divisor (the caller
  checks that before it divides). Go strings are byte sequences, here \<open>char list\<close>.
  A pointer \<^verbatim>\<open>*T\<close> is a \<open>T option\<close>, \<open>None\<close> being \<^verbatim>\<open>nil\<close>.
\<close>

type_synonym int32 = "32 word"

datatype panic = NilPointerDereference | IntegerDivideByZero | IndexOutOfRange

definition int32_div :: "int32 \<Rightarrow> int32 \<Rightarrow> int32" where
  "int32_div x y = word_of_int (sint x sdiv sint y)"

text \<open>\<^verbatim>\<open>func p[T comparable](t T) *T\<close> and \<^verbatim>\<open>func v[T comparable](p *T) T\<close>.\<close>

text \<open>
  Both are generic in Go. \<open>p\<close> is used on strings only (zero value: the empty
  string) and \<open>v\<close> on \<^verbatim>\<open>*int32\<close> only (zero value: 0).
\<close>

definition p :: "string \<Rightarrow> string option" where
  "p t = (if t = [] then None else Some t)"

definition v :: "int32 option \<Rightarrow> int32" where
  "v ptr = (case ptr of None \<Rightarrow> 0 | Some x \<Rightarrow> x)"

subsection \<open>strconv.Itoa\<close>

fun digits_of :: "nat \<Rightarrow> string" where
  "digits_of n =
     (if n < 10 then [char_of (48 + n)]
      else digits_of (n div 10) @ [char_of (48 + n mod 10)])"

declare digits_of.simps [simp del]

definition Itoa :: "int \<Rightarrow> string" where
  "Itoa i = (if i < 0 then CHR ''-'' # digits_of (nat (- i)) else digits_of (nat i))"

subsection \<open>strings.SplitN, strings.Split, strings.Join, strings.HasPrefix\<close>

text \<open>
  \<open>Index c s\<close> is \<^verbatim>\<open>strings.Index(s, sep)\<close> for a one-byte separator: the position of
  its first occurrence, \<open>None\<close> for Go's \<open>-1\<close>.
\<close>

fun Index :: "char \<Rightarrow> string \<Rightarrow> nat option" where
  "Index c [] = None"
| "Index c (x # xs) =
     (if x = c then Some 0 else (case Index c xs of None \<Rightarrow> None | Some i \<Rightarrow> Some (Suc i)))"

text \<open>\<^verbatim>\<open>strings.SplitN(s, sep, 2)\<close>: cut at the first separator, or \<open>[s]\<close> when there is none.\<close>

definition SplitN2 :: "string \<Rightarrow> char \<Rightarrow> string list" where
  "SplitN2 s sep = (case Index sep s of None \<Rightarrow> [s] | Some m \<Rightarrow> [take m s, drop (m + 1) s])"

text \<open>\<^verbatim>\<open>strings.Split(s, sep)\<close>: cut at every separator; never the empty list.\<close>

fun Split :: "string \<Rightarrow> char \<Rightarrow> string list" where
  "Split [] sep = [[]]"
| "Split (x # xs) sep =
     (if x = sep then [] # Split xs sep
      else (case Split xs sep of [] \<Rightarrow> [[x]] | t # ts \<Rightarrow> (x # t) # ts))"

fun Join :: "string list \<Rightarrow> string \<Rightarrow> string" where
  "Join [] sep = []"
| "Join [x] sep = x"
| "Join (x # y # ys) sep = x @ sep @ Join (y # ys) sep"

definition HasPrefix :: "string \<Rightarrow> string \<Rightarrow> bool" where
  "HasPrefix s pre = (take (length pre) s = pre)"

subsection \<open>strings.TrimSpace\<close>

text \<open>
  \<^verbatim>\<open>strings.TrimSpace\<close> removes the leading and the trailing runes for which
  \<^verbatim>\<open>unicode.IsSpace\<close> holds: the six ASCII ones and U+0085, U+00A0, U+1680,
  U+2000 to U+200A, U+2028, U+2029, U+202F, U+205F, U+3000. On bytes, a rune decoded at
  the start (or at the end) of a string is one of them exactly when the string starts
  (ends) with its UTF-8 encoding; any other byte sequence, ill-formed ones included,
  decodes to a rune that is not white space.
\<close>

definition spaceRunes :: "string list" where
  "spaceRunes =
     [[CHR 0x09], [CHR 0x0A], [CHR 0x0B], [CHR 0x0C], [CHR 0x0D], [CHR 0x20],
      [CHR 0xC2, CHR 0x85], [CHR 0xC2, CHR 0xA0],
      [CHR 0xE1, CHR 0x9A, CHR 0x80],
      [CHR 0xE2, CHR 0x80, CHR 0x80], [CHR 0xE2, CHR 0x80, CHR 0x81],
      [CHR 0xE2, CHR 0x80, CHR 0x82], [CHR 0xE2, CHR 0x80, CHR 0x83],
      [CHR 0xE2, CHR 0x80, CHR 0x84], [CHR 0xE2, CHR 0x80, CHR 0x85],
      [CHR 0xE2, CHR 0x80, CHR 0x86], [CHR 0xE2, CHR 0x80, CHR 0x87],
      [CHR 0xE2, CHR 0x80, CHR 0x88], [CHR 0xE2, CHR 0x80, CHR 0x89],
      [CHR 0xE2, CHR 0x80, CHR 0x8A],
      [CHR 0xE2, CHR 0x80, CHR 0xA8], [CHR 0xE2, CHR 0x80, CHR 0xA9],
      [CHR 0xE2, CHR 0x80, CHR 0xAF],
      [CHR 0xE2, CHR 0x81, CHR 0x9F],
      [CHR 0xE3, CHR 0x80, CHR 0x80]]"

text \<open>The width in bytes of the white-space rune a string starts (ends) with, 0 for none.\<close>

definition leadingSpace :: "string \<Rightarrow> nat" where
  "leadingSpace s =
     (case find (\<lambda>r. take (length r) s = r) spaceRunes of None \<Rightarrow> 0 | Some r \<Rightarrow> length r)"

definition trailingSpace :: "string \<Rightarrow> nat" where
  "trailingSpace s =
     (case find (\<lambda>r. length r \<le> length s \<and> drop (length s - length r) s = r) spaceRunes of
        None \<Rightarrow> 0 | Some r \<Rightarrow> length r)"

function TrimLeftSpace :: "string \<Rightarrow> string" where
  "TrimLeftSpace s =
     (if leadingSpace s = 0 then s else TrimLeftSpace (drop (leadingSpace s) s))"
  by pat_completeness auto
termination
proof (relation "measure length")
  show "wf (measure length)" by simp
next
  fix s :: string
  assume "leadingSpace s \<noteq> 0"
  moreover have "leadingSpace s \<le> length s"
  proof (cases "find (\<lambda>r. take (length r) s = r) spaceRunes")
    case None
    then show ?thesis by (simp add: leadingSpace_def)
  next
    case (Some r)
    then have "take (length r) s = r" by (auto simp: find_Some_iff)
    then have "length r \<le> length s" by (metis length_take min.cobounded1)
    with Some show ?thesis by (simp add: leadingSpace_def)
  qed
  ultimately show "(drop (leadingSpace s) s, s) \<in> measure length" by simp
qed

function TrimRightSpace :: "string \<Rightarrow> string" where
  "TrimRightSpace s =
     (if trailingSpace s = 0 then s else TrimRightSpace (take (length s - trailingSpace s) s))"
  by pat_completeness auto
termination
proof (relation "measure length")
  show "wf (measure length)" by simp
next
  fix s :: string
  assume "trailingSpace s \<noteq> 0"
  moreover have "trailingSpace s \<le> length s"
    by (auto simp: trailingSpace_def find_Some_iff split: option.splits)
  ultimately show "(take (length s - trailingSpace s) s, s) \<in> measure length" by simp
qed

declare TrimLeftSpace.simps [simp del] TrimRightSpace.simps [simp del]

definition TrimSpace :: "string \<Rightarrow> string" where
  "TrimSpace s = TrimRightSpace (TrimLeftSpace s)"

section \<open>The request parameters and the query descriptor\<close>

text \<open>
  \<^verbatim>\<open>GetTracksParams\<close> is declared in generated code; these are the fields
  helpers.go reads, with the types it reads them at.
\<close>

record GetTracksParams =
  FilterEquals :: "string list option"
  FilterContains :: "string list option"
  FilterLessThan :: "string list option"
  FilterLessOrEqual :: "string list option"
  FilterGreaterThan :: "string list option"
  FilterGreaterOrEqual :: "string list option"
  FilterStartsWith :: "string list option"
  FilterEndsWith :: "string list option"
  PageOffset :: "int32 option"
  PageLimit :: "int32 option"
  Sort :: "string option"
  Include :: "string option"

text \<open>
  The squirrel predicates helpers.go builds. \<^verbatim>\<open>squirrel.Eq{f: v}\<close> and its siblings are
  one-entry maps from a column to a value; \<^verbatim>\<open>squirrel.And\<close> and \<^verbatim>\<open>squirrel.Or\<close>
  are lists of predicates.
\<close>

datatype Sqlizer =
  Eq string string
| Like string string
| Gt string string
| GtOrEq string string
| Lt string string
| LtOrEq string string
| And "Sqlizer list"
| Or "Sqlizer list"

text \<open>
  \<^verbatim>\<open>model.QueryOptions{Max, Offset, Filters, Sort}\<close>; \<open>Max\<close> and \<open>Sort\<close> are primed
  because the names are taken.
\<close>

record QueryOptions =
  Max' :: int
  Offset :: int
  Filters :: Sqlizer
  Sort' :: string

section \<open>toSortParams\<close>

text \<open>
  \<^verbatim>\<open>regexp.MustCompile(`[a-zA-Z0-9_\-]`)\<close>: one character class, not anchored, so
  \<^verbatim>\<open>Match\<close> holds when some byte of its input is in the class.
\<close>

definition validSortPattern :: "char \<Rightarrow> bool" where
  "validSortPattern c =
     (let n = (of_char c :: nat) in
        (97 \<le> n \<and> n \<le> 122) \<or> (65 \<le> n \<and> n \<le> 90) \<or> (48 \<le> n \<and> n \<le> 57)
        \<or> c = CHR ''_'' \<or> c = CHR ''-'')"

definition validSortPattern_Match :: "string \<Rightarrow> bool" where
  "validSortPattern_Match b = list_ex validSortPattern b"

text \<open>
  \<^verbatim>\<open>string(trimmedCol[0])\<close> converts a byte to the UTF-8 encoding of the code point of
  that number: the byte itself below 128, two bytes from 128 on.
\<close>

definition string_of_byte :: "char \<Rightarrow> string" where
  "string_of_byte b =
     (let n = (of_char b :: nat) in
        if n < 128 then [b] else [char_of (192 + n div 64), char_of (128 + n mod 64)])"

text \<open>
  The loop over \<open>inputCols\<close>, with \<open>resultCols\<close> as its state. \<open>Inl\<close> is the early
  \<^verbatim>\<open>return "", errors.New(...)\<close>, carrying the message of the error.
\<close>

fun toSortParams_loop :: "string list \<Rightarrow> string list \<Rightarrow> string + string list" where
  "toSortParams_loop [] resultCols = Inr resultCols"
| "toSortParams_loop (col # inputCols) resultCols =
     (let trimmedCol = TrimSpace col in
        case trimmedCol of
          [] \<Rightarrow> toSortParams_loop inputCols resultCols
        | c0 # rest \<Rightarrow>
            if \<not> validSortPattern_Match (string_of_byte c0)
            then Inl (''invalid sort parameter: '' @ trimmedCol)
            else
              (let colName = TrimSpace rest in
                 if HasPrefix trimmedCol ''-''
                 then toSortParams_loop inputCols (resultCols @ [colName @ '' desc''])
                 else toSortParams_loop inputCols (resultCols @ [trimmedCol @ '' asc''])))"

text \<open>The result is Go's pair: the compiled sort and the error (\<open>None\<close> for \<^verbatim>\<open>nil\<close>).\<close>

definition toSortParams :: "string option \<Rightarrow> string \<times> string option" where
  "toSortParams sort' =
     (case sort' of
        None \<Rightarrow> ([], None)
      | Some s \<Rightarrow>
          if s = [] then ([], None)
          else
            (case toSortParams_loop (Split s CHR '','') [] of
               Inl err \<Rightarrow> ([], Some err)
             | Inr resultCols \<Rightarrow> (Join resultCols '','', None)))"

section \<open>toQueryOptions\<close>

text \<open>
  The closure \<open>parseFilter\<close> appends to the captured \<open>filters\<close>; here \<open>filters\<close> is
  passed and returned. \<^verbatim>\<open>parts[1]\<close> panics when the token has no colon.
\<close>

fun parseFilter_loop ::
  "string list \<Rightarrow> (string \<Rightarrow> string \<Rightarrow> Sqlizer) \<Rightarrow> Sqlizer list \<Rightarrow> panic + Sqlizer list" where
  "parseFilter_loop [] op filters = Inr filters"
| "parseFilter_loop (f # fs) op filters =
     (let parts = SplitN2 f CHR '':'' in
        if length parts < 2 then Inl IndexOutOfRange
        else parseFilter_loop fs op (filters @ [op (parts ! 0) (parts ! 1)]))"

definition parseFilter ::
  "string list option \<Rightarrow> (string \<Rightarrow> string \<Rightarrow> Sqlizer) \<Rightarrow> Sqlizer list \<Rightarrow> panic + Sqlizer list" where
  "parseFilter fs op filters =
     (case fs of None \<Rightarrow> Inr filters | Some l \<Rightarrow> parseFilter_loop l op filters)"

definition andThen :: "panic + 'a \<Rightarrow> ('a \<Rightarrow> panic + 'b) \<Rightarrow> panic + 'b" where
  "andThen r k = (case r of Inl e \<Rightarrow> Inl e | Inr x \<Rightarrow> k x)"

text \<open>
  The result carries the warnings written through \<^verbatim>\<open>log.Warn\<close>, each as its message
  and the error logged with it.
\<close>

definition toQueryOptions :: "GetTracksParams \<Rightarrow> panic + (QueryOptions \<times> (string \<times> string) list)" where
  "toQueryOptions params =
     andThen (parseFilter (FilterEquals params) (\<lambda>f v. Eq f v) []) (\<lambda>filters.
     andThen (parseFilter (FilterContains params) (\<lambda>f v. Like f (''%'' @ v @ ''%'')) filters) (\<lambda>filters.
     andThen (parseFilter (FilterStartsWith params) (\<lambda>f v. Like f (v @ ''%'')) filters) (\<lambda>filters.
     andThen (parseFilter (FilterEndsWith params) (\<lambda>f v. Like f (''%'' @ v)) filters) (\<lambda>filters.
     andThen (parseFilter (FilterGreaterThan params) (\<lambda>f v. Gt f v) filters) (\<lambda>filters.
     andThen (parseFilter (FilterGreaterOrEqual params) (\<lambda>f v. GtOrEq f v) filters) (\<lambda>filters.
     andThen (parseFilter (FilterLessThan params) (\<lambda>f v. Lt f v) filters) (\<lambda>filters.
     andThen (parseFilter (FilterLessOrEqual params) (\<lambda>f v. LtOrEq f v) filters) (\<lambda>filters.
       (let offset = v (PageOffset params);
            limit = v (PageLimit params);
            (sort', err) = toSortParams (Sort params);
            warnings = (case err of None \<Rightarrow> []
                        | Some e \<Rightarrow> [(''Ignoring invalid sort parameter'', e)])
        in Inr (\<lparr>Max' = sint limit, Offset = sint offset, Filters = And filters, Sort' = sort'\<rparr>,
                warnings))))))))))"

section \<open>apiErrorHandler\<close>

text \<open>
  An error is a sentinel of the model package, some other error value, or an error that
  wraps another one; \<^verbatim>\<open>errors.Is\<close> walks the chain of wrapped errors. A \<^verbatim>\<open>nil\<close>
  error is \<open>None\<close>.
\<close>

datatype error = ErrNotAuthorized | ErrNotFound | ErrorString string | WrapError string error

fun errors_Is :: "error \<Rightarrow> error \<Rightarrow> bool" where
  "errors_Is (WrapError msg inner) target =
     (WrapError msg inner = target \<or> errors_Is inner target)"
| "errors_Is err target = (err = target)"

text \<open>The three status constants of net/http the handler names, and their reason phrases.\<close>

datatype StatusCode = StatusForbidden | StatusNotFound | StatusInternalServerError

fun code_of :: "StatusCode \<Rightarrow> int" where
  "code_of StatusForbidden = 403"
| "code_of StatusNotFound = 404"
| "code_of StatusInternalServerError = 500"

fun StatusText :: "StatusCode \<Rightarrow> string" where
  "StatusText StatusForbidden = ''Forbidden''"
| "StatusText StatusNotFound = ''Not Found''"
| "StatusText StatusInternalServerError = ''Internal Server Error''"

record ErrorObject =
  Status :: "string option"
  Title :: "string option"
  Detail :: "string option"

record ErrorList =
  Errors :: "ErrorObject list"

text \<open>
  The \<^verbatim>\<open>http.ResponseWriter\<close>: its header map, the status code sent (\<open>None\<close> until
  one is), and the documents encoded to its body. Only the first \<^verbatim>\<open>WriteHeader\<close>
  counts, and a write before any \<^verbatim>\<open>WriteHeader\<close> sends 200.
\<close>

record ResponseWriter =
  header :: "string \<rightharpoonup> string"
  statusCode :: "int option"
  body :: "ErrorList list"

definition Header_Set :: "ResponseWriter \<Rightarrow> string \<Rightarrow> string \<Rightarrow> ResponseWriter" where
  "Header_Set w key val = w\<lparr>header := (header w)(key \<mapsto> val)\<rparr>"

definition WriteHeader :: "ResponseWriter \<Rightarrow> int \<Rightarrow> ResponseWriter" where
  "WriteHeader w code = (if statusCode w = None then w\<lparr>statusCode := Some code\<rparr> else w)"

definition Encode :: "ResponseWriter \<Rightarrow> ErrorList \<Rightarrow> ResponseWriter" where
  "Encode w doc = (WriteHeader w 200)\<lparr>body := body w @ [doc]\<rparr>"

definition errorIs :: "error option \<Rightarrow> error \<Rightarrow> bool" where
  "errorIs err target = (case err of None \<Rightarrow> False | Some e \<Rightarrow> errors_Is e target)"

definition apiErrorHandler :: "ResponseWriter \<Rightarrow> error option \<Rightarrow> ResponseWriter" where
  "apiErrorHandler w err =
     (let res =
        (if errorIs err ErrNotAuthorized
         then \<lparr>Status = p (Itoa (code_of StatusForbidden)),
               Title = p (StatusText StatusForbidden), Detail = None\<rparr>
         else if errorIs err ErrNotFound
         then \<lparr>Status = p (Itoa (code_of StatusNotFound)),
               Title = p (StatusText StatusNotFound), Detail = None\<rparr>
         else \<lparr>Status = p (Itoa (code_of StatusInternalServerError)),
               Title = p (StatusText StatusInternalServerError), Detail = None\<rparr>);
          w = Header_Set w ''Content-Type'' ''application/vnd.api+json'';
          w = WriteHeader w 403
      in Encode w \<lparr>Errors = [res]\<rparr>)"

section \<open>buildPaginationLinksAndMeta\<close>

subsection \<open>url.QueryEscape and url.Values\<close>

definition upperhex :: "nat \<Rightarrow> char" where
  "upperhex n = ''0123456789ABCDEF'' ! n"

text \<open>
  \<^verbatim>\<open>shouldEscape(c, encodeQueryComponent)\<close>: everything but letters, digits and
  \<^verbatim>\<open>- _ . ~\<close> is escaped.
\<close>

definition shouldEscape :: "char \<Rightarrow> bool" where
  "shouldEscape c =
     (let n = (of_char c :: nat) in
        \<not> ((97 \<le> n \<and> n \<le> 122) \<or> (65 \<le> n \<and> n \<le> 90) \<or> (48 \<le> n \<and> n \<le> 57)
           \<or> c = CHR ''-'' \<or> c = CHR ''_'' \<or> c = CHR ''.'' \<or> c = CHR ''~''))"

fun QueryEscape :: "string \<Rightarrow> string" where
  "QueryEscape [] = []"
| "QueryEscape (c # cs) =
     (if c = CHR '' '' then CHR ''+'' # QueryEscape cs
      else if shouldEscape c
      then CHR ''%'' # upperhex (of_char c div 16) # upperhex (of_char c mod 16) # QueryEscape cs
      else c # QueryEscape cs)"

text \<open>
  \<^verbatim>\<open>url.Values\<close> is a map from a key to the list of its values; it is kept as an
  association list with one entry for each key. \<open>Values_Add\<close> is \<^verbatim>\<open>v.Add(key, value)\<close>
  and \<open>Values_Get\<close> is the map read \<^verbatim>\<open>v[k]\<close>.
\<close>

type_synonym Values = "(string \<times> string list) list"

fun Values_Add :: "Values \<Rightarrow> string \<Rightarrow> string \<Rightarrow> Values" where
  "Values_Add [] key val = [(key, [val])]"
| "Values_Add ((k, vs) # q) key val =
     (if k = key then (k, vs @ [val]) # q else (k, vs) # Values_Add q key val)"

definition Values_Get :: "Values \<Rightarrow> string \<Rightarrow> string list" where
  "Values_Get q k = (case map_of q k of None \<Rightarrow> [] | Some vs \<Rightarrow> vs)"

text \<open>
  \<^verbatim>\<open>Values.Encode\<close>: the keys in sorted order; for each value of each key,
  \<open>key=value\<close> with both escaped, after an \<open>&\<close> when the buffer is not empty.
\<close>

fun Encode_values :: "string \<Rightarrow> string list \<Rightarrow> string \<Rightarrow> string" where
  "Encode_values keyEscaped [] buf = buf"
| "Encode_values keyEscaped (val # vs) buf =
     Encode_values keyEscaped vs
       ((if length buf > 0 then buf @ ''&'' else buf) @ keyEscaped @ ''='' @ QueryEscape val)"

fun Encode_keys :: "Values \<Rightarrow> string list \<Rightarrow> string \<Rightarrow> string" where
  "Encode_keys q [] buf = buf"
| "Encode_keys q (k # ks) buf =
     Encode_keys q ks (Encode_values (QueryEscape k) (Values_Get q k) buf)"

definition Values_Encode :: "Values \<Rightarrow> string" where
  "Values_Encode q = (if length q = 0 then [] else Encode_keys q (sort (map fst q)) [])"

subsection \<open>The closures buildLink and addFilterParams\<close>

definition addFilterParams :: "Values \<Rightarrow> string \<Rightarrow> string list option \<Rightarrow> Values" where
  "addFilterParams query paramName values =
     (case values of
        None \<Rightarrow> query
      | Some vs \<Rightarrow> foldl (\<lambda>q val. Values_Add q paramName val) query vs)"

text \<open>
  \<open>buildLink\<close> captures \<open>params\<close>, \<open>resourceName\<close> and \<open>pageLimit\<close>; they are arguments
  here. \<open>buildLink_query\<close> is the \<open>query\<close> it fills, one \<open>Add\<close> after the other, and
  \<open>buildLink\<close> the link it makes of it. It returns a pointer to a fresh string, never
  \<^verbatim>\<open>nil\<close>.
\<close>

definition buildLink_query :: "GetTracksParams \<Rightarrow> int32 \<Rightarrow> int32 \<Rightarrow> Values" where
  "buildLink_query params pageLimit page =
     (let query = [];
          query = Values_Add query ''page[offset]'' (Itoa (sint (page * pageLimit)));
          query = Values_Add query ''page[limit]'' (Itoa (sint pageLimit));
          query = addFilterParams query ''filter[equals]'' (FilterEquals params);
          query = addFilterParams query ''filter[contains]'' (FilterContains params);
          query = addFilterParams query ''filter[lessThan]'' (FilterLessThan params);
          query = addFilterParams query ''filter[lessOrEqual]'' (FilterLessOrEqual params);
          query = addFilterParams query ''filter[greaterThan]'' (FilterGreaterThan params);
          query = addFilterParams query ''filter[greaterOrEqual]'' (FilterGreaterOrEqual params);
          query = addFilterParams query ''filter[startsWith]'' (FilterStartsWith params);
          query = addFilterParams query ''filter[endsWith]'' (FilterEndsWith params);
          query = (case Sort params of None \<Rightarrow> query | Some s \<Rightarrow> Values_Add query ''sort'' s);
          query = (case Include params of None \<Rightarrow> query | Some i \<Rightarrow> Values_Add query ''include'' i)
      in query)"

definition buildLink :: "GetTracksParams \<Rightarrow> string \<Rightarrow> int32 \<Rightarrow> int32 \<Rightarrow> string" where
  "buildLink params resourceName pageLimit page =
     (let query = buildLink_query params pageLimit page in
        if length query > 0 then resourceName @ ''?'' @ Values_Encode query else resourceName)"

subsection \<open>The function\<close>

record PaginationMeta =
  CurrentPage :: "int32 option"
  TotalItems :: "int32 option"
  TotalPages :: "int32 option"

record PaginationLinks =
  First :: "string option"
  Last :: "string option"
  Next :: "string option"
  Prev :: "string option"

definition buildPaginationLinksAndMeta ::
  "int32 \<Rightarrow> GetTracksParams \<Rightarrow> string \<Rightarrow> panic + (PaginationLinks \<times> PaginationMeta)" where
  "buildPaginationLinksAndMeta totalItems params resourceName =
     (case PageLimit params of
        None \<Rightarrow> Inl NilPointerDereference
      | Some pageLimit \<Rightarrow>
     (case PageOffset params of
        None \<Rightarrow> Inl NilPointerDereference
      | Some pageOffset \<Rightarrow>
          if pageLimit = 0 then Inl IntegerDivideByZero
          else
            (let totalPages = int32_div (totalItems + pageLimit - 1) pageLimit;
                 currentPage = int32_div pageOffset pageLimit + 1;
                 meta = \<lparr>CurrentPage = Some currentPage, TotalItems = Some totalItems,
                         TotalPages = Some totalPages\<rparr>;
                 first = (if 0 <s totalPages
                          then Some (buildLink params resourceName pageLimit 0) else None);
                 last = (if 0 <s totalPages
                         then Some (buildLink params resourceName pageLimit (totalPages - 1))
                         else None);
                 next = (if currentPage <s totalPages
                         then Some (buildLink params resourceName pageLimit currentPage)
                         else None);
                 prev = (if 1 <s currentPage
                         then Some (buildLink params resourceName pageLimit (currentPage - 2))
                         else None);
                 links = \<lparr>First = first, Last = last, Next = next, Prev = prev\<rparr>
             in Inr (links, meta))))"

section \<open>Notions of the specification and example requests\<close>

text \<open>A request with a page window and no filter, sort or include parameter.\<close>

definition page_params :: "int32 \<Rightarrow> int32 \<Rightarrow> GetTracksParams" where
  "page_params pageOffset pageLimit =
     \<lparr>FilterEquals = None, FilterContains = None, FilterLessThan = None,
      FilterLessOrEqual = None, FilterGreaterThan = None, FilterGreaterOrEqual = None,
      FilterStartsWith = None, FilterEndsWith = None,
      PageOffset = Some pageOffset, PageLimit = Some pageLimit, Sort = None, Include = None\<rparr>"

text \<open>A response nothing has been written to.\<close>

definition fresh_response :: ResponseWriter where
  "fresh_response = \<lparr>header = Map.empty, statusCode = None, body = []\<rparr>"

text \<open>
  The text of a filter token before its first colon, and the text after that colon.
\<close>

definition field_of :: "string \<Rightarrow> string" where
  "field_of t = takeWhile (\<lambda>c. c \<noteq> CHR '':'') t"

definition value_of :: "string \<Rightarrow> string" where
  "value_of t = drop 1 (dropWhile (\<lambda>c. c \<noteq> CHR '':'') t)"

definition has_colon :: "string \<Rightarrow> bool" where
  "has_colon t = (CHR '':'' \<in> set t)"

text \<open>The tokens of one filter family (none when the list is absent), and of all eight.\<close>

definition tokens :: "string list option \<Rightarrow> string list" where
  "tokens fs = (case fs of None \<Rightarrow> [] | Some l \<Rightarrow> l)"

definition filter_tokens :: "GetTracksParams \<Rightarrow> string list" where
  "filter_tokens params =
     tokens (FilterEquals params) @ tokens (FilterContains params)
     @ tokens (FilterStartsWith params) @ tokens (FilterEndsWith params)
     @ tokens (FilterGreaterThan params) @ tokens (FilterGreaterOrEqual params)
     @ tokens (FilterLessThan params) @ tokens (FilterLessOrEqual params)"

text \<open>
  The clauses the specification lists for a request: equals, contains, starts-with,
  ends-with, greater-than, greater-or-equal, less-than, less-or-equal, each family in
  the order of its list.
\<close>

definition spec_clauses :: "GetTracksParams \<Rightarrow> Sqlizer list" where
  "spec_clauses params =
     map (\<lambda>t. Eq (field_of t) (value_of t)) (tokens (FilterEquals params))
     @ map (\<lambda>t. Like (field_of t) (''%'' @ value_of t @ ''%'')) (tokens (FilterContains params))
     @ map (\<lambda>t. Like (field_of t) (value_of t @ ''%'')) (tokens (FilterStartsWith params))
     @ map (\<lambda>t. Like (field_of t) (''%'' @ value_of t)) (tokens (FilterEndsWith params))
     @ map (\<lambda>t. Gt (field_of t) (value_of t)) (tokens (FilterGreaterThan params))
     @ map (\<lambda>t. GtOrEq (field_of t) (value_of t)) (tokens (FilterGreaterOrEqual params))
     @ map (\<lambda>t. Lt (field_of t) (value_of t)) (tokens (FilterLessThan params))
     @ map (\<lambda>t. LtOrEq (field_of t) (value_of t)) (tokens (FilterLessOrEqual params))"

text \<open>A predicate on one column, as opposed to a conjunction or a disjunction.\<close>

fun is_comparison :: "Sqlizer \<Rightarrow> bool" where
  "is_comparison (And cs) = False"
| "is_comparison (Or cs) = False"
| "is_comparison c = True"

text \<open>
  The tokens of a sort string: its comma-separated pieces, trimmed, the empty ones
  dropped. A token passes the check when its first byte is in the class.
\<close>

definition sort_tokens :: "string \<Rightarrow> string list" where
  "sort_tokens s = filter (\<lambda>t. t \<noteq> []) (map TrimSpace (Split s CHR '','')) "

definition valid_token :: "string \<Rightarrow> bool" where
  "valid_token t = validSortPattern (hd t)"

text \<open>
  The rendering of a token as the specification words it (\<open>spec_render\<close>: the text
  after the \<open>-\<close>), and with that text trimmed once more (\<open>sort_render\<close>).
\<close>

definition spec_render :: "string \<Rightarrow> string" where
  "spec_render t = (if hd t = CHR ''-'' then tl t @ '' desc'' else t @ '' asc'')"

definition sort_render :: "string \<Rightarrow> string" where
  "sort_render t =
     (if hd t = CHR ''-'' then TrimSpace (tl t) @ '' desc'' else t @ '' asc'')"

text \<open>A piece of a blank sort string: a comma or the encoding of a white-space rune.\<close>

definition comma_or_space :: "string \<Rightarrow> bool" where
  "comma_or_space piece = (piece = '','' \<or> piece \<in> set spaceRunes)"

text \<open>
  The query entries the specification lists for a link, as pairs of a parameter name and
  a value, in the order of the sorted parameter names: the values of each filter family,
  the include string, the page limit, the page offset, the sort string.
\<close>

definition family_entries :: "string \<Rightarrow> string list option \<Rightarrow> (string \<times> string) list" where
  "family_entries name values = map (Pair name) (tokens values)"

definition optional_entry :: "string \<Rightarrow> string option \<Rightarrow> (string \<times> string) list" where
  "optional_entry name val = (case val of None \<Rightarrow> [] | Some x \<Rightarrow> [(name, x)])"

definition spec_link_entries :: "GetTracksParams \<Rightarrow> int \<Rightarrow> int \<Rightarrow> (string \<times> string) list" where
  "spec_link_entries params limit offset =
     family_entries ''filter[contains]'' (FilterContains params)
     @ family_entries ''filter[endsWith]'' (FilterEndsWith params)
     @ family_entries ''filter[equals]'' (FilterEquals params)
     @ family_entries ''filter[greaterOrEqual]'' (FilterGreaterOrEqual params)
     @ family_entries ''filter[greaterThan]'' (FilterGreaterThan params)
     @ family_entries ''filter[lessOrEqual]'' (FilterLessOrEqual params)
     @ family_entries ''filter[lessThan]'' (FilterLessThan params)
     @ family_entries ''filter[startsWith]'' (FilterStartsWith params)
     @ optional_entry ''include'' (Include params)
     @ [(''page[limit]'', Itoa limit), (''page[offset]'', Itoa offset)]
     @ optional_entry ''sort'' (Sort params)"

text \<open>An entry URL-encoded, and the link made of a resource name and entries.\<close>

definition encode_entry :: "string \<times> string \<Rightarrow> string" where
  "encode_entry e = QueryEscape (fst e) @ ''='' @ QueryEscape (snd e)"

definition link_text :: "string \<Rightarrow> (string \<times> string) list \<Rightarrow> string" where
  "link_text resourceName entries = resourceName @ ''?'' @ Join (map encode_entry entries) ''&''"

definition spec_link :: "GetTracksParams \<Rightarrow> string \<Rightarrow> int \<Rightarrow> int \<Rightarrow> string" where
  "spec_link params resourceName limit offset =
     link_text resourceName (spec_link_entries params limit offset)"

text \<open>The parameter names a link can carry, sorted as \<open>Values.Encode\<close> sorts them.\<close>

definition link_keys :: "string list" where
  "link_keys = [''filter[contains]'', ''filter[endsWith]'', ''filter[equals]'',
     ''filter[greaterOrEqual]'', ''filter[greaterThan]'', ''filter[lessOrEqual]'',
     ''filter[lessThan]'', ''filter[startsWith]'', ''include'', ''page[limit]'',
     ''page[offset]'', ''sort'']"

definition link_values :: "Values \<Rightarrow> bool" where
  "link_values q = (distinct (map fst q) \<and> fst ` set q \<subseteq> set link_keys)"

text \<open>One write of an entry to the buffer of \<open>Values.Encode\<close>.\<close>

definition amp :: "string \<Rightarrow> string \<Rightarrow> string" where
  "amp buf e = (if length buf > 0 then buf @ ''&'' else buf) @ e"

text \<open>A request with two equals filters, a contains filter and a sort.\<close>

definition example_params :: GetTracksParams where
  "example_params = (page_params 20 10)\<lparr>FilterEquals := Some [''artist:Queen'', ''a b:c&d''],
     FilterContains := Some [''title:love''], Sort := Some ''-year,title''\<rparr>"

section \<open>Arithmetic of int32\<close>

lemma neg_pred_div:
  assumes "0 < (b::int)"
  shows "(- x - 1) div b = - (x div b) - 1"
proof (rule int_div_pos_eq[where r = "b - 1 - x mod b"])
  have "x = b * (x div b) + x mod b" by simp
  then have "- x - 1 = - (b * (x div b) + x mod b) - 1" by simp
  also have "\<dots> = b * (- (x div b) - 1) + (b - 1 - x mod b)" by (simp add: algebra_simps)
  finally show "- x - 1 = b * (- (x div b) - 1) + (b - 1 - x mod b)" .
  have "x mod b < b" "0 \<le> x mod b" using assms by simp_all
  then show "0 \<le> b - 1 - x mod b" "b - 1 - x mod b < b" by linarith+
qed

lemma ceil_div_aux:
  assumes "0 < (b::int)"
  shows "- (- a div b) = (a + b - 1) div b"
proof -
  have "- a div b = (- (a - 1) - 1) div b" by simp
  also have "\<dots> = - ((a - 1) div b) - 1" using assms by (rule neg_pred_div)
  finally have "- (- a div b) = (a - 1) div b + 1" by simp
  moreover have "(a + b - 1) div b = (a - 1 + b) div b" by (simp add: algebra_simps)
  moreover have "(a - 1 + b) div b = (a - 1) div b + 1" using assms by simp
  ultimately show ?thesis by simp
qed

lemma ceiling_div_int:
  "0 < (b::int) \<Longrightarrow> \<lceil>real_of_int a / real_of_int b\<rceil> = (a + b - 1) div b"
  by (simp add: ceiling_divide_eq_div ceil_div_aux)

lemma sint_int32_of_int:
  "- (2^31) \<le> k \<Longrightarrow> k < 2^31 \<Longrightarrow> sint (word_of_int k :: int32) = k"
  by (simp add: sint_sbintrunc' signed_take_bit_int_eq_self)

lemma sint_int32_range: "- (2^31) \<le> sint (x::int32) \<and> sint x < 2^31"
  using sint_ge[of x] sint_lt[of x] by simp

lemma sdiv_nonneg: "0 \<le> (a::int) \<Longrightarrow> 0 < b \<Longrightarrow> a sdiv b = a div b"
  by (simp add: signed_divide_int_def sgn_if)

lemma int32_div_nonneg:
  assumes "0 \<le> sint a" "0 < sint b"
  shows "sint (int32_div a b) = sint a div sint b"
proof -
  have "sint a div sint b \<le> sint a" using assms
    by (smt (verit, best) int_div_le_self nonneg1_imp_zdiv_pos_iff)
  moreover have "0 \<le> sint a div sint b" using assms by (simp add: pos_imp_zdiv_nonneg_iff)
  moreover have "sint a < 2^31" using sint_int32_range[of a] by simp
  ultimately show ?thesis using assms
    by (simp add: int32_div_def sdiv_nonneg sint_int32_of_int)
qed

lemma sint_add_sub1:
  assumes "- (2^31) \<le> sint x + sint y - 1" "sint x + sint y - 1 < 2^31"
  shows "sint ((x::int32) + y - 1) = sint x + sint y - 1"
proof -
  have "x + y - 1 = word_of_int (sint x + sint y - 1)" by simp
  then show ?thesis using assms by (simp only: sint_int32_of_int)
qed

lemma sint_add1:
  assumes "sint x + 1 < 2^31"
  shows "sint ((x::int32) + 1) = sint x + 1"
proof -
  have "x + 1 = word_of_int (sint x + 1)" by simp
  moreover have "- (2^31) \<le> sint x + 1" using sint_int32_range[of x] by simp
  ultimately show ?thesis using assms by (simp only: sint_int32_of_int)
qed

section \<open>The pagination computer\<close>

text \<open>
  C2, as amended. For \<open>totalItems \<ge> 0\<close>, \<open>limit > 0\<close> and \<open>offset \<ge> 0\<close> such that
  \<open>totalItems + limit - 1\<close> and \<open>offset / limit + 1\<close> fit in an int32, the metadata
  returned carries \<open>totalPages = ceil (totalItems / limit)\<close>, which is the integer
  expression \<open>(totalItems + limit - 1) / limit\<close>, and
  \<open>currentPage = floor (offset / limit) + 1\<close>.
\<close>

theorem pagination_meta_no_overflow:
  assumes lim: "PageLimit params = Some pageLimit" and off: "PageOffset params = Some pageOffset"
    and ti: "0 \<le> sint totalItems" and pl: "0 < sint pageLimit" and po: "0 \<le> sint pageOffset"
    and fit1: "sint totalItems + sint pageLimit - 1 < 2 ^ 31"
    and fit2: "sint pageOffset div sint pageLimit + 1 < 2 ^ 31"
  shows "\<exists>links totalPages currentPage.
           buildPaginationLinksAndMeta totalItems params resourceName =
             Inr (links, \<lparr>CurrentPage = Some currentPage, TotalItems = Some totalItems,
                          TotalPages = Some totalPages\<rparr>)
           \<and> sint totalPages = \<lceil>real_of_int (sint totalItems) / real_of_int (sint pageLimit)\<rceil>
           \<and> sint totalPages = (sint totalItems + sint pageLimit - 1) div sint pageLimit
           \<and> sint currentPage = \<lfloor>real_of_int (sint pageOffset) / real_of_int (sint pageLimit)\<rfloor> + 1"
proof -
  define totalPages where "totalPages = int32_div (totalItems + pageLimit - 1) pageLimit"
  define currentPage where "currentPage = int32_div pageOffset pageLimit + 1"
  have nz: "pageLimit \<noteq> 0" using pl by auto
  have s1: "sint (totalItems + pageLimit - 1) = sint totalItems + sint pageLimit - 1"
    using ti pl fit1 by (intro sint_add_sub1) simp_all
  have tp: "sint totalPages = (sint totalItems + sint pageLimit - 1) div sint pageLimit"
    using ti pl s1 by (simp add: totalPages_def int32_div_nonneg)
  have q: "sint (int32_div pageOffset pageLimit) = sint pageOffset div sint pageLimit"
    using po pl by (rule int32_div_nonneg)
  have cp: "sint currentPage = sint pageOffset div sint pageLimit + 1"
    using fit2 q by (simp add: currentPage_def sint_add1)
  have c: "\<lceil>real_of_int (sint totalItems) / real_of_int (sint pageLimit)\<rceil>
             = (sint totalItems + sint pageLimit - 1) div sint pageLimit"
    using pl by (rule ceiling_div_int)
  have f: "\<lfloor>real_of_int (sint pageOffset) / real_of_int (sint pageLimit)\<rfloor>
             = sint pageOffset div sint pageLimit"
    by (rule floor_divide_of_int_eq)
  have "\<exists>links. buildPaginationLinksAndMeta totalItems params resourceName =
          Inr (links, \<lparr>CurrentPage = Some currentPage, TotalItems = Some totalItems,
                       TotalPages = Some totalPages\<rparr>)"
    using lim off nz
    by (simp add: buildPaginationLinksAndMeta_def Let_def totalPages_def currentPage_def)
  then obtain links where
    "buildPaginationLinksAndMeta totalItems params resourceName =
       Inr (links, \<lparr>CurrentPage = Some currentPage, TotalItems = Some totalItems,
                    TotalPages = Some totalPages\<rparr>)" ..
  with tp cp c f show ?thesis by (metis (no_types))
qed

text \<open>
  The examples of C2: 25 items in pages of 10 are 3 pages and offset 20 is page 3;
  no item is no page.
\<close>

theorem pagination_meta_witness:
  "(\<exists>links totalPages currentPage.
      buildPaginationLinksAndMeta 25 (page_params 20 10) ''/tracks'' =
        Inr (links, \<lparr>CurrentPage = Some currentPage, TotalItems = Some 25,
                     TotalPages = Some totalPages\<rparr>)
      \<and> sint totalPages = 3 \<and> sint currentPage = 3)
   \<and> (\<exists>links totalPages currentPage.
      buildPaginationLinksAndMeta 0 (page_params 0 10) ''/tracks'' =
        Inr (links, \<lparr>CurrentPage = Some currentPage, TotalItems = Some 0,
                     TotalPages = Some totalPages\<rparr>)
      \<and> sint totalPages = 0 \<and> sint currentPage = 1)"
  using pagination_meta_no_overflow [of "page_params 20 10" 10 20 25 "''/tracks''"]
    pagination_meta_no_overflow [of "page_params 0 10" 10 0 0 "''/tracks''"]
  by (simp add: page_params_def)

text \<open>
  C2 as stated fails where the int32 sum wraps around: 2 items with a page limit of
  2147483647 are one page, and the code reports \<open>-1\<close> pages.
\<close>

theorem totalPages_overflow:
  "map_option sint
     (TotalPages (snd (projr
        (buildPaginationLinksAndMeta 2 (page_params 0 2147483647) ''/tracks'')))) = Some (- 1)
   \<and> \<lceil>real_of_int (sint (2::int32)) / real_of_int (sint (2147483647::int32))\<rceil> = 1"
  by (simp add: buildPaginationLinksAndMeta_def page_params_def int32_div_def Let_def
      ceiling_div_int)

text \<open>
  C9. The function dereferences the page limit and the page offset unconditionally: it
  panics when either is absent. With both present and a positive limit it returns the
  links and the metadata.
\<close>

theorem buildPaginationLinksAndMeta_precondition:
  "(PageLimit params = None \<longrightarrow>
      buildPaginationLinksAndMeta totalItems params resourceName = Inl NilPointerDereference)
   \<and> (PageOffset params = None \<longrightarrow>
      buildPaginationLinksAndMeta totalItems params resourceName = Inl NilPointerDereference)
   \<and> (\<forall>pageLimit pageOffset.
        PageLimit params = Some pageLimit \<and> PageOffset params = Some pageOffset
        \<and> 0 < sint pageLimit \<longrightarrow>
        (\<exists>links meta.
           buildPaginationLinksAndMeta totalItems params resourceName = Inr (links, meta)))"
  by (auto simp: buildPaginationLinksAndMeta_def Let_def split: option.splits)

theorem buildPaginationLinksAndMeta_precondition_witness:
  "buildPaginationLinksAndMeta 25 ((page_params 20 10)\<lparr>PageLimit := None\<rparr>) ''/tracks''
     = Inl NilPointerDereference
   \<and> buildPaginationLinksAndMeta 25 ((page_params 20 10)\<lparr>PageOffset := None\<rparr>) ''/tracks''
     = Inl NilPointerDereference
   \<and> (\<exists>links meta.
        buildPaginationLinksAndMeta 25 (page_params 20 10) ''/tracks'' = Inr (links, meta))"
  using buildPaginationLinksAndMeta_precondition
      [of "(page_params 20 10)\<lparr>PageLimit := None\<rparr>" 25 "''/tracks''"]
    buildPaginationLinksAndMeta_precondition
      [of "(page_params 20 10)\<lparr>PageOffset := None\<rparr>" 25 "''/tracks''"]
    buildPaginationLinksAndMeta_precondition [of "page_params 20 10" 25 "''/tracks''"]
  by (simp add: page_params_def)

section \<open>The error document formatter\<close>

lemma Itoa_status: "Itoa 403 = ''403''" "Itoa 404 = ''404''" "Itoa 500 = ''500''"
  by code_simp+

text \<open>
  C7. On a response nothing has been sent on, the handler sets the content type to
  \<open>application/vnd.api+json\<close>, writes the status 403 whatever the error is, and encodes
  one document with exactly one error object: \<open>403\<close> and \<open>Forbidden\<close> for a
  not-authorized error, \<open>404\<close> and \<open>Not Found\<close> for a not-found error,
  \<open>500\<close> and \<open>Internal Server Error\<close> for any other.
\<close>

theorem apiErrorHandler_response:
  assumes "statusCode w = None"
  shows "\<exists>status title.
           apiErrorHandler w err =
             w\<lparr>header := (header w)(''Content-Type'' \<mapsto> ''application/vnd.api+json''),
               statusCode := Some 403,
               body := body w @ [\<lparr>Errors = [\<lparr>Status = Some status, Title = Some title,
                                                Detail = None\<rparr>]\<rparr>]\<rparr>
           \<and> (status, title) =
               (if errorIs err ErrNotAuthorized then (''403'', ''Forbidden'')
                else if errorIs err ErrNotFound then (''404'', ''Not Found'')
                else (''500'', ''Internal Server Error''))"
  using assms
  by (simp add: apiErrorHandler_def Let_def Header_Set_def WriteHeader_def Encode_def p_def
      Itoa_status)

theorem apiErrorHandler_response_witness:
  "apiErrorHandler fresh_response (Some (WrapError ''get track'' ErrNotFound)) =
     \<lparr>header = [''Content-Type'' \<mapsto> ''application/vnd.api+json''], statusCode = Some 403,
      body = [\<lparr>Errors = [\<lparr>Status = Some ''404'', Title = Some ''Not Found'',
                            Detail = None\<rparr>]\<rparr>]\<rparr>"
  using apiErrorHandler_response [of fresh_response "Some (WrapError ''get track'' ErrNotFound)"]
  by (simp add: fresh_response_def errorIs_def)

section \<open>The filter clause compiler\<close>

lemma Index_first: "c \<notin> set a \<Longrightarrow> Index c (a @ c # b) = Some (length a)"
  by (induction a) auto

lemma SplitN2_first: "sep \<notin> set a \<Longrightarrow> SplitN2 (a @ sep # b) sep = [a, b]"
  by (simp add: SplitN2_def Index_first)

lemma colon_decompose:
  assumes "has_colon t"
  shows "t = field_of t @ CHR '':'' # value_of t \<and> CHR '':'' \<notin> set (field_of t)"
proof -
  let ?P = "\<lambda>c. c \<noteq> CHR '':''"
  have ne: "dropWhile ?P t \<noteq> []" using assms by (auto simp: has_colon_def)
  then have "hd (dropWhile ?P t) = CHR '':''" using hd_dropWhile[of ?P t] by auto
  with ne have "dropWhile ?P t = CHR '':'' # drop 1 (dropWhile ?P t)"
    by (cases "dropWhile ?P t") auto
  moreover have "t = takeWhile ?P t @ dropWhile ?P t" by simp
  moreover have "CHR '':'' \<notin> set (takeWhile ?P t)" by (auto dest: set_takeWhileD)
  ultimately show ?thesis by (simp add: field_of_def value_of_def)
qed

lemma SplitN2_colon: "has_colon t \<Longrightarrow> SplitN2 t CHR '':'' = [field_of t, value_of t]"
  using colon_decompose[of t] SplitN2_first[of "CHR '':''" "field_of t" "value_of t"] by simp

lemma parseFilter_loop_colon:
  "list_all has_colon fs \<Longrightarrow>
   parseFilter_loop fs op filters = Inr (filters @ map (\<lambda>t. op (field_of t) (value_of t)) fs)"
  by (induction fs arbitrary: filters) (simp_all add: SplitN2_colon Let_def)

lemma parseFilter_colon:
  "list_all has_colon (tokens fs) \<Longrightarrow>
   parseFilter fs op filters = Inr (filters @ map (\<lambda>t. op (field_of t) (value_of t)) (tokens fs))"
  by (cases fs) (simp_all add: parseFilter_def tokens_def parseFilter_loop_colon)

lemma toQueryOptions_filters:
  assumes "list_all has_colon (filter_tokens params)"
  shows "toQueryOptions params =
     Inr (\<lparr>Max' = sint (v (PageLimit params)), Offset = sint (v (PageOffset params)),
           Filters = And (spec_clauses params),
           Sort' = fst (toSortParams (Sort params))\<rparr>,
          case snd (toSortParams (Sort params)) of None \<Rightarrow> []
          | Some e \<Rightarrow> [(''Ignoring invalid sort parameter'', e)])"
  using assms
  by (simp add: toQueryOptions_def filter_tokens_def spec_clauses_def parseFilter_colon
      andThen_def split_beta Let_def)

text \<open>
  C4. A token with a colon is the text before its first colon, that colon, and the
  text after it; the compiler hands exactly these two texts to the family's operator as
  the field and the value of the clause it appends. The value is everything after the
  first colon, further colons included, and may be empty.
\<close>

theorem parseFilter_first_colon:
  assumes "has_colon token"
  shows "parseFilter (Some [token]) op filters
           = Inr (filters @ [op (field_of token) (value_of token)])
         \<and> token = field_of token @ CHR '':'' # value_of token
         \<and> CHR '':'' \<notin> set (field_of token)"
  using assms colon_decompose[OF assms]
  by (simp add: parseFilter_def SplitN2_colon Let_def)

theorem parseFilter_first_colon_witness:
  "parseFilter (Some [''title:a:b'']) Eq [] = Inr [Eq ''title'' ''a:b'']
   \<and> parseFilter (Some [''title:'']) Eq [] = Inr [Eq ''title'' []]"
  using parseFilter_first_colon [of "''title:a:b''" Eq "[]"]
    parseFilter_first_colon [of "''title:''" Eq "[]"]
  by (simp add: has_colon_def field_of_def value_of_def)

text \<open>
  C8. When every filter token has a colon, the compiled filter is one \<open>And\<close> over the
  clauses in the order equals, contains, starts-with, ends-with, greater-than,
  greater-or-equal, less-than, less-or-equal, each family in the order of its list;
  every clause is a predicate on one column, none an \<open>Or\<close>.
\<close>

theorem toQueryOptions_conjunction:
  assumes "list_all has_colon (filter_tokens params)"
  shows "\<exists>opts warnings.
           toQueryOptions params = Inr (opts, warnings)
           \<and> Filters opts = And (spec_clauses params)
           \<and> list_all is_comparison (spec_clauses params)"
proof -
  have "list_all is_comparison (spec_clauses params)"
    by (auto simp: spec_clauses_def list_all_iff)
  then show ?thesis using toQueryOptions_filters[OF assms] by simp
qed

theorem toQueryOptions_conjunction_witness:
  "\<exists>opts warnings.
     toQueryOptions ((page_params 0 10)\<lparr>FilterEquals := Some [''artist:Queen''],
        FilterContains := Some [''title:love''], FilterLessThan := Some [''year:2000'']\<rparr>)
       = Inr (opts, warnings)
     \<and> Filters opts
       = And [Eq ''artist'' ''Queen'', Like ''title'' ''%love%'', Lt ''year'' ''2000'']"
  using toQueryOptions_conjunction [of "(page_params 0 10)\<lparr>FilterEquals := Some [''artist:Queen''],
        FilterContains := Some [''title:love''], FilterLessThan := Some [''year:2000'']\<rparr>"]
  by (simp add: page_params_def filter_tokens_def tokens_def has_colon_def spec_clauses_def
      field_of_def value_of_def)

section \<open>The sort specification compiler\<close>

lemma validSortPattern_ascii: "validSortPattern x \<Longrightarrow> (of_char x :: nat) < 128"
  by (auto simp: validSortPattern_def Let_def)

lemma validSortPattern_Match_byte:
  "validSortPattern_Match (string_of_byte c) = validSortPattern c"
proof (cases "(of_char c :: nat) < 128")
  case True
  then show ?thesis by (simp add: validSortPattern_Match_def string_of_byte_def)
next
  case False
  define n where "n = (of_char c :: nat)"
  have n: "128 \<le> n" "n < 256" using False by (simp_all add: n_def nat_of_char_less_256)
  then have "n div 64 < 4" by simp
  then have a: "(of_char (char_of (192 + n div 64) :: char) :: nat) = 192 + n div 64"
    by simp
  have b: "(of_char (char_of (128 + n mod 64) :: char) :: nat) = 128 + n mod 64"
    by simp
  have "\<not> validSortPattern (char_of (192 + n div 64))"
    using validSortPattern_ascii[of "char_of (192 + n div 64)"] a by auto
  moreover have "\<not> validSortPattern (char_of (128 + n mod 64))"
    using validSortPattern_ascii[of "char_of (128 + n mod 64)"] b by auto
  moreover have "\<not> validSortPattern c" using validSortPattern_ascii[of c] False by auto
  ultimately show ?thesis using False
    by (simp add: validSortPattern_Match_def string_of_byte_def Let_def n_def)
qed

lemma HasPrefix_dash: "HasPrefix (c # cs) ''-'' = (c = CHR ''-'')"
  by (simp add: HasPrefix_def)

lemma toSortParams_loop_tokens:
  "toSortParams_loop cols acc =
     (case find (\<lambda>t. \<not> valid_token t) (filter (\<lambda>t. t \<noteq> []) (map TrimSpace cols)) of
        Some t \<Rightarrow> Inl (''invalid sort parameter: '' @ t)
      | None \<Rightarrow> Inr (acc @ map sort_render (filter (\<lambda>t. t \<noteq> []) (map TrimSpace cols))))"
proof (induction cols arbitrary: acc)
  case Nil
  then show ?case by simp
next
  case (Cons col cols)
  show ?case
  proof (cases "TrimSpace col")
    case Nil
    then show ?thesis using Cons.IH by (simp split: option.splits)
  next
    case (Cons c0 rest)
    then show ?thesis using Cons.IH
      by (simp add: validSortPattern_Match_byte valid_token_def sort_render_def HasPrefix_dash
          split: option.splits)
  qed
qed

lemma TrimSpace_Nil: "TrimSpace [] = []"
  by code_simp

lemma toSortParams_tokens:
  "toSortParams (Some s) =
     (case find (\<lambda>t. \<not> valid_token t) (sort_tokens s) of
        Some t \<Rightarrow> ([], Some (''invalid sort parameter: '' @ t))
      | None \<Rightarrow> (Join (map sort_render (sort_tokens s)) '','', None))"
proof (cases "s = []")
  case True
  then show ?thesis by (simp add: toSortParams_def sort_tokens_def TrimSpace_Nil)
next
  case False
  then show ?thesis
    by (simp add: toSortParams_def sort_tokens_def toSortParams_loop_tokens split: option.splits)
qed

text \<open>
  C5, as amended. When some token of the sort string has a first byte outside
  \<open>[A-Za-z0-9_-]\<close>, the compiler fails with \<open>invalid sort parameter: \<close> followed by
  the first such token, and \<open>toQueryOptions\<close> logs that error and returns a descriptor
  with the empty sort. Only the first byte is read: a token that starts with \<open>-\<close>
  passes.
\<close>

theorem toSortParams_invalid_token:
  assumes "find (\<lambda>t. \<not> valid_token t) (sort_tokens s) = Some t"
    and "Sort params = Some s"
    and "list_all has_colon (filter_tokens params)"
  shows "toSortParams (Some s) = ([], Some (''invalid sort parameter: '' @ t))
         \<and> (\<exists>opts.
              toQueryOptions params =
                Inr (opts, [(''Ignoring invalid sort parameter'',
                             ''invalid sort parameter: '' @ t)])
              \<and> Sort' opts = [])"
proof -
  have e: "toSortParams (Some s) = ([], Some (''invalid sort parameter: '' @ t))"
    using assms(1) by (simp add: toSortParams_tokens)
  then show ?thesis using toQueryOptions_filters[OF assms(3)] assms(2) by simp
qed

theorem toSortParams_invalid_token_witness:
  "toSortParams (Some ''$bad,title'') = ([], Some ''invalid sort parameter: $bad'')
   \<and> (\<exists>opts.
        toQueryOptions ((page_params 0 10)\<lparr>Sort := Some ''$bad,title''\<rparr>) =
          Inr (opts, [(''Ignoring invalid sort parameter'', ''invalid sort parameter: $bad'')])
        \<and> Sort' opts = [])"
proof -
  have h: "find (\<lambda>t. \<not> valid_token t) (sort_tokens ''$bad,title'') = Some ''$bad''"
    by code_simp
  show ?thesis
    using toSortParams_invalid_token
      [OF h, of "(page_params 0 10)\<lparr>Sort := Some ''$bad,title''\<rparr>"]
    by (simp add: page_params_def filter_tokens_def tokens_def)
qed

text \<open>
  C5 as stated fails for a token with a leading \<open>-\<close>: \<open>-$bad\<close> has \<open>$\<close> right after
  the \<open>-\<close>, and it compiles to a descending sort with no error.
\<close>

theorem toSortParams_dash_unchecked:
  "\<not> validSortPattern (CHR ''$'') \<and> toSortParams (Some ''-$bad'') = (''$bad desc'', None)"
  by code_simp

text \<open>
  C6, as amended. When every token of the sort string passes the check, the compiler
  returns, joined by commas in input order, \<open>token asc\<close> for a token that does not start
  with \<open>-\<close>, and for one that does, the text after the \<open>-\<close>, trimmed of surrounding
  white space once more, followed by \<open> desc\<close>.
\<close>

theorem toSortParams_valid:
  assumes "list_all valid_token (sort_tokens s)"
  shows "toSortParams (Some s) = (Join (map sort_render (sort_tokens s)) '','', None)"
proof -
  have "find (\<lambda>t. \<not> valid_token t) (sort_tokens s) = None"
    using assms by (simp add: find_None_iff list_all_iff)
  then show ?thesis by (simp add: toSortParams_tokens)
qed

theorem toSortParams_valid_witness:
  "toSortParams (Some ''-year, title,,'') = (''year desc,title asc'', None)"
proof -
  have t: "sort_tokens ''-year, title,,'' = [''-year'', ''title'']" by code_simp
  have "list_all valid_token (sort_tokens ''-year, title,,'')" unfolding t by code_simp
  from toSortParams_valid [OF this] show ?thesis unfolding t by code_simp
qed

text \<open>
  C6 as stated fails where white space follows the \<open>-\<close>: the token \<open>- year\<close> compiles to
  \<open>year desc\<close>, and the text after its \<open>-\<close> is \<open> year\<close>.
\<close>

theorem toSortParams_desc_trims:
  "toSortParams (Some ''- year'') = (''year desc'', None)
   \<and> Join (map spec_render (sort_tokens ''- year'')) '','' = '' year desc''"
  by code_simp

lemma Split_nonempty: "Split s sep \<noteq> []"
  by (induction s) (auto split: list.splits)

lemma Split_append_nosep:
  "sep \<notin> set a \<Longrightarrow> Split (a @ s) sep = (a @ hd (Split s sep)) # tl (Split s sep)"
proof (induction a)
  case Nil
  then show ?case using Split_nonempty[of s sep] by simp
next
  case (Cons x a)
  then show ?case by auto
qed

lemma spaceRunes_cases:
  assumes "r \<in> set spaceRunes"
  obtains c where "r = [c]" "c \<noteq> CHR '',''" "leadingSpace ([c] @ s) = 1"
  | c d where "r = [c, d]" "c \<noteq> CHR '',''" "d \<noteq> CHR '',''" "leadingSpace ([c, d] @ s) = 2"
  | c d e where "r = [c, d, e]" "c \<noteq> CHR '',''" "d \<noteq> CHR '',''" "e \<noteq> CHR '',''"
      "leadingSpace ([c, d, e] @ s) = 3"
  using assms
  apply (simp add: spaceRunes_def)
  apply (elim disjE)
  apply (simp_all add: leadingSpace_def spaceRunes_def)
  done

lemma TrimLeftSpace_rune:
  assumes "r \<in> set spaceRunes"
  shows "TrimLeftSpace (r @ s) = TrimLeftSpace s"
  using assms
  by (rule spaceRunes_cases[where s = s]) (subst TrimLeftSpace.simps, simp)+

lemma space_rune_no_comma: "r \<in> set spaceRunes \<Longrightarrow> CHR '','' \<notin> set r"
  by (erule spaceRunes_cases[where s = "[]"]) simp_all

lemma TrimLeftSpace_Nil: "TrimLeftSpace [] = []"
  by code_simp

lemma TrimRightSpace_Nil: "TrimRightSpace [] = []"
  by code_simp

lemma Split_blank:
  "list_all comma_or_space ps \<Longrightarrow>
   list_all (\<lambda>t. TrimLeftSpace t = []) (Split (concat ps) CHR '','')"
proof (induction ps)
  case Nil
  then show ?case by (simp add: TrimLeftSpace_Nil)
next
  case (Cons piece ps)
  then have IH: "list_all (\<lambda>t. TrimLeftSpace t = []) (Split (concat ps) CHR '','')" by simp
  from Cons.prems have "piece = '','' \<or> piece \<in> set spaceRunes"
    by (simp add: comma_or_space_def)
  then show ?case
  proof
    assume "piece = '',''"
    then show ?thesis using IH by (simp add: TrimLeftSpace_Nil)
  next
    assume r: "piece \<in> set spaceRunes"
    have ne: "Split (concat ps) CHR '','' \<noteq> []" by (rule Split_nonempty)
    then have "TrimLeftSpace (hd (Split (concat ps) CHR '','')) = []"
      using IH by (cases "Split (concat ps) CHR '',''") simp_all
    moreover have "list_all (\<lambda>t. TrimLeftSpace t = []) (tl (Split (concat ps) CHR '',''))"
      using IH ne by (cases "Split (concat ps) CHR '',''") simp_all
    ultimately show ?thesis
      using r by (simp add: Split_append_nosep space_rune_no_comma TrimLeftSpace_rune)
  qed
qed

lemma sort_tokens_blank:
  assumes "list_all comma_or_space ps"
  shows "sort_tokens (concat ps) = []"
proof -
  have "list_all (\<lambda>t. TrimSpace t = []) (Split (concat ps) CHR '','')"
    using Split_blank[OF assms] by (simp add: list_all_iff TrimSpace_def TrimRightSpace_Nil)
  then show ?thesis by (simp add: sort_tokens_def list_all_iff filter_empty_conv)
qed

text \<open>
  C10. An absent sort parameter, the empty sort string, and a sort string made of
  commas and white-space runes only all compile to the empty sort with no error.
\<close>

theorem toSortParams_blank:
  assumes "list_all comma_or_space ps"
  shows "toSortParams None = ([], None) \<and> toSortParams (Some []) = ([], None)
         \<and> toSortParams (Some (concat ps)) = ([], None)"
proof -
  have "toSortParams None = ([], None)" "toSortParams (Some []) = ([], None)"
    by (simp_all add: toSortParams_def)
  moreover have "toSortParams (Some (concat ps)) = ([], None)"
    using sort_tokens_blank[OF assms] by (simp add: toSortParams_tokens)
  ultimately show ?thesis by simp
qed

theorem toSortParams_blank_witness:
  "toSortParams None = ([], None) \<and> toSortParams (Some []) = ([], None)
   \<and> toSortParams (Some [CHR 0x20, CHR '','', CHR 0xC2, CHR 0xA0, CHR '','', CHR 0x09])
       = ([], None)"
  using toSortParams_blank [of "['' '', '','', [CHR 0xC2, CHR 0xA0], '','', [CHR 0x09]]"]
  by (simp add: comma_or_space_def spaceRunes_def)

section \<open>The link builder\<close>

text \<open>
  \<open>Values.Encode\<close> visits the keys in sorted order and joins the entries with \<open>&\<close>;
  the keys \<open>buildLink\<close> adds are among \<open>link_keys\<close>, which is sorted.
\<close>

lemma link_keys_sorted: "sorted link_keys \<and> distinct link_keys"
  by (simp add: link_keys_def)

lemma Encode_values_foldl:
  "Encode_values ke vs buf = foldl amp buf (map (\<lambda>v. ke @ ''='' @ QueryEscape v) vs)"
  by (induction vs arbitrary: buf) (simp_all add: amp_def)

lemma Encode_keys_foldl:
  "Encode_keys q ks buf =
     foldl amp buf (concat (map (\<lambda>k. map (\<lambda>v. encode_entry (k, v)) (Values_Get q k)) ks))"
  by (induction ks arbitrary: buf) (simp_all add: Encode_values_foldl encode_entry_def)

lemma Join_Cons: "Join (e # es) sep = e @ concat (map (\<lambda>x. sep @ x) es)"
  by (induction es arbitrary: e) simp_all

lemma foldl_amp_nonempty:
  "buf \<noteq> [] \<Longrightarrow> foldl amp buf es = buf @ concat (map (\<lambda>x. ''&'' @ x) es)"
  by (induction es arbitrary: buf) (simp_all add: amp_def)

lemma foldl_amp_Join:
  assumes "list_all (\<lambda>e. e \<noteq> []) es"
  shows "foldl amp [] es = Join es ''&''"
proof (cases es)
  case Nil
  then show ?thesis by simp
next
  case (Cons e es')
  then have "e \<noteq> []" using assms by simp
  then have "foldl amp (amp [] e) es' = e @ concat (map (\<lambda>x. ''&'' @ x) es')"
    using foldl_amp_nonempty[of e es'] by (simp add: amp_def)
  then show ?thesis using Cons by (simp add: Join_Cons)
qed

lemma encode_entry_nonempty: "encode_entry e \<noteq> []"
  by (simp add: encode_entry_def)

lemma Values_Get_absent: "k \<notin> fst ` set q \<Longrightarrow> Values_Get q k = []"
proof -
  assume "k \<notin> fst ` set q"
  then have "map_of q k = None" by (simp add: map_of_eq_None_iff)
  then show ?thesis by (simp add: Values_Get_def)
qed

lemma concat_filter_keys:
  "concat (map (\<lambda>k. map (\<lambda>v. encode_entry (k, v)) (Values_Get q k)) (filter (\<lambda>k. k \<in> fst ` set q) ks))
   = concat (map (\<lambda>k. map (\<lambda>v. encode_entry (k, v)) (Values_Get q k)) ks)"
  by (induction ks) (simp_all add: Values_Get_absent)

lemma sort_keys:
  assumes "distinct (map fst q)" "fst ` set q \<subseteq> set ks" "sorted ks" "distinct ks"
  shows "sort (map fst q) = filter (\<lambda>k. k \<in> fst ` set q) ks"
proof (rule sorted_distinct_set_unique)
  show "sorted (sort (map fst q))" by simp
  show "distinct (sort (map fst q))" using assms(1) by simp
  show "sorted (filter (\<lambda>k. k \<in> fst ` set q) ks)" using assms(3) by (simp add: sorted_wrt_filter)
  show "distinct (filter (\<lambda>k. k \<in> fst ` set q) ks)" using assms(4) by simp
  show "set (sort (map fst q)) = set (filter (\<lambda>k. k \<in> fst ` set q) ks)"
    using assms(2) by auto
qed

lemma Values_Encode_closed:
  assumes "distinct (map fst q)" "fst ` set q \<subseteq> set ks" "sorted ks" "distinct ks"
  shows "Values_Encode q =
     Join (concat (map (\<lambda>k. map (\<lambda>v. encode_entry (k, v)) (Values_Get q k)) ks)) ''&''"
proof (cases "q = []")
  case True
  have c: "concat (map (\<lambda>k. []) ks) = ([] :: string list)" by (induction ks) simp_all
  show ?thesis using True by (simp add: Values_Encode_def Values_Get_def c)
next
  case False
  have "Values_Encode q = foldl amp [] (concat (map (\<lambda>k. map (\<lambda>v. encode_entry (k, v)) (Values_Get q k)) ks))"
    using False by (simp add: Values_Encode_def Encode_keys_foldl sort_keys[OF assms] concat_filter_keys)
  also have "\<dots> = Join (concat (map (\<lambda>k. map (\<lambda>v. encode_entry (k, v)) (Values_Get q k)) ks)) ''&''"
    by (rule foldl_amp_Join) (auto simp: list_all_iff encode_entry_nonempty)
  finally show ?thesis .
qed

lemma keys_Add: "fst ` set (Values_Add q k x) = insert k (fst ` set q)"
  by (induction q k x rule: Values_Add.induct) auto

lemma distinct_Add: "distinct (map fst q) \<Longrightarrow> distinct (map fst (Values_Add q k x))"
proof (induction q k x rule: Values_Add.induct)
  case (1 key val)
  then show ?case by simp
next
  case (2 k vs q key val)
  have "fst ` set (Values_Add q key val) = insert key (fst ` set q)" by (rule keys_Add)
  with 2 show ?case by auto
qed

lemma Get_Add:
  "Values_Get (Values_Add q k x) k' = (if k' = k then Values_Get q k @ [x] else Values_Get q k')"
  by (induction q k x rule: Values_Add.induct) (auto simp: Values_Get_def)

lemma link_values_Add:
  "link_values q \<Longrightarrow> k \<in> set link_keys \<Longrightarrow> link_values (Values_Add q k x)"
  by (simp add: link_values_def keys_Add distinct_Add)

lemma link_values_foldl:
  "link_values q \<Longrightarrow> k \<in> set link_keys \<Longrightarrow>
   link_values (foldl (\<lambda>q val. Values_Add q k val) q vs)"
  by (induction vs arbitrary: q) (simp_all add: link_values_Add)

lemma Get_foldl:
  "Values_Get (foldl (\<lambda>q val. Values_Add q k val) q vs) k' =
     (if k' = k then Values_Get q k @ vs else Values_Get q k')"
  by (induction vs arbitrary: q) (simp_all add: Get_Add)

lemma link_values_addFilterParams:
  "link_values q \<Longrightarrow> k \<in> set link_keys \<Longrightarrow> link_values (addFilterParams q k values)"
  by (cases "values") (simp_all add: addFilterParams_def link_values_foldl)

lemma Get_addFilterParams:
  "Values_Get (addFilterParams q k values) k' =
     (if k' = k then Values_Get q k @ tokens values else Values_Get q k')"
  by (cases "values") (simp_all add: addFilterParams_def tokens_def Get_foldl)

lemma link_values_optional:
  "link_values q \<Longrightarrow> k \<in> set link_keys \<Longrightarrow>
   link_values (case val of None \<Rightarrow> q | Some x \<Rightarrow> Values_Add q k x)"
  by (cases val) (simp_all add: link_values_Add)

lemma Get_optional:
  "Values_Get (case val of None \<Rightarrow> q | Some x \<Rightarrow> Values_Add q k x) k' =
     (if k' = k then Values_Get q k @ map snd (optional_entry k val) else Values_Get q k')"
  by (cases val) (simp_all add: Get_Add optional_entry_def)

lemma link_values_buildLink_query: "link_values (buildLink_query params pageLimit page)"
  unfolding buildLink_query_def Let_def
  by (intro link_values_optional link_values_addFilterParams link_values_Add)
     (simp_all add: link_values_def link_keys_def)

lemma Get_Nil: "Values_Get [] k = []"
  by (simp add: Values_Get_def)

lemma Get_buildLink_query:
  "Values_Get (buildLink_query params pageLimit page) ''filter[contains]'' = tokens (FilterContains params)"
  "Values_Get (buildLink_query params pageLimit page) ''filter[endsWith]'' = tokens (FilterEndsWith params)"
  "Values_Get (buildLink_query params pageLimit page) ''filter[equals]'' = tokens (FilterEquals params)"
  "Values_Get (buildLink_query params pageLimit page) ''filter[greaterOrEqual]'' = tokens (FilterGreaterOrEqual params)"
  "Values_Get (buildLink_query params pageLimit page) ''filter[greaterThan]'' = tokens (FilterGreaterThan params)"
  "Values_Get (buildLink_query params pageLimit page) ''filter[lessOrEqual]'' = tokens (FilterLessOrEqual params)"
  "Values_Get (buildLink_query params pageLimit page) ''filter[lessThan]'' = tokens (FilterLessThan params)"
  "Values_Get (buildLink_query params pageLimit page) ''filter[startsWith]'' = tokens (FilterStartsWith params)"
  "Values_Get (buildLink_query params pageLimit page) ''include'' = map snd (optional_entry ''include'' (Include params))"
  "Values_Get (buildLink_query params pageLimit page) ''page[limit]'' = [Itoa (sint pageLimit)]"
  "Values_Get (buildLink_query params pageLimit page) ''page[offset]'' = [Itoa (sint (page * pageLimit))]"
  "Values_Get (buildLink_query params pageLimit page) ''sort'' = map snd (optional_entry ''sort'' (Sort params))"
  by (simp_all add: buildLink_query_def Let_def Get_optional Get_addFilterParams Get_Add Get_Nil
      del: Values_Add.simps)

lemma map_family: "map encode_entry (family_entries k values) = map (\<lambda>x. encode_entry (k, x)) (tokens values)"
  by (simp add: family_entries_def)

lemma map_optional:
  "map encode_entry (optional_entry k val) = map (\<lambda>x. encode_entry (k, x)) (map snd (optional_entry k val))"
  by (cases val) (simp_all add: optional_entry_def)

lemma buildLink_query_nonempty: "buildLink_query params pageLimit page \<noteq> []"
proof
  assume "buildLink_query params pageLimit page = []"
  then have "Values_Get (buildLink_query params pageLimit page) ''page[limit]'' = []"
    by (simp add: Get_Nil)
  then show False by (simp add: Get_buildLink_query)
qed

lemma buildLink_closed:
  "buildLink params resourceName pageLimit page =
     link_text resourceName (spec_link_entries params (sint pageLimit) (sint (page * pageLimit)))"
proof -
  let ?q = "buildLink_query params pageLimit page"
  have w: "distinct (map fst ?q)" "fst ` set ?q \<subseteq> set link_keys"
    using link_values_buildLink_query[of params pageLimit page] by (simp_all add: link_values_def)
  have "Values_Encode ?q =
      Join (concat (map (\<lambda>k. map (\<lambda>v. encode_entry (k, v)) (Values_Get ?q k)) link_keys)) ''&''"
    using w link_keys_sorted by (intro Values_Encode_closed) simp_all
  also have "concat (map (\<lambda>k. map (\<lambda>v. encode_entry (k, v)) (Values_Get ?q k)) link_keys)
      = map encode_entry (spec_link_entries params (sint pageLimit) (sint (page * pageLimit)))"
    by (simp add: link_keys_def Get_buildLink_query spec_link_entries_def map_family map_optional)
  finally show ?thesis using buildLink_query_nonempty[of params pageLimit page]
    by (simp add: buildLink_def link_text_def Let_def)
qed

lemma buildLink_spec_link:
  "buildLink params resourceName pageLimit page =
     spec_link params resourceName (sint pageLimit) (sint (page * pageLimit))"
  by (simp add: buildLink_closed spec_link_def)

lemma Join_split:
  "es \<noteq> [] \<Longrightarrow>
   Join (es @ x # fs) sep = Join es sep @ sep @ x @ concat (map (\<lambda>e. sep @ e) fs)"
  by (cases es) (simp_all add: Join_Cons)

lemma QueryEscape_unreserved:
  "list_all (\<lambda>c. c \<noteq> CHR '' '' \<and> \<not> shouldEscape c) s \<Longrightarrow> QueryEscape s = s"
  by (induction s) simp_all

lemma digit_unreserved:
  assumes "d < 10"
  shows "char_of (48 + d) \<noteq> CHR '' '' \<and> \<not> shouldEscape (char_of (48 + (d::nat)))"
proof
  have a: "(of_char (char_of (48 + d) :: char) :: nat) = 48 + d" using assms by simp
  show "char_of (48 + d) \<noteq> CHR '' ''"
  proof
    assume "char_of (48 + d) = CHR '' ''"
    then have "(of_char (char_of (48 + d) :: char) :: nat) = of_char (CHR '' '')" by simp
    with a show False by simp
  qed
  show "\<not> shouldEscape (char_of (48 + d))"
    unfolding shouldEscape_def Let_def a using assms by simp
qed

lemma digits_of_unreserved:
  "list_all (\<lambda>c. c \<noteq> CHR '' '' \<and> \<not> shouldEscape c) (digits_of n)"
proof (induction n rule: digits_of.induct)
  case (1 n)
  show ?case
  proof (cases "n < 10")
    case True
    then show ?thesis using digit_unreserved[of n] by (subst digits_of.simps) simp
  next
    case False
    then show ?thesis using 1 digit_unreserved[of "n mod 10"]
      by (subst digits_of.simps) simp
  qed
qed

lemma dash_unreserved: "\<not> shouldEscape (CHR ''-'')"
  by (simp add: shouldEscape_def)

lemma QueryEscape_Itoa: "QueryEscape (Itoa i) = Itoa i"
  by (rule QueryEscape_unreserved) (simp add: Itoa_def digits_of_unreserved dash_unreserved)

lemma QueryEscape_offset_key: "QueryEscape ''page[offset]'' = ''page%5Boffset%5D''"
  by code_simp

lemma spec_link_offset:
  "\<exists>pre suf. \<forall>offset.
     spec_link params resourceName limit offset =
       pre @ ''page%5Boffset%5D='' @ Itoa offset @ suf"
proof -
  define es where "es =
     family_entries ''filter[contains]'' (FilterContains params)
     @ family_entries ''filter[endsWith]'' (FilterEndsWith params)
     @ family_entries ''filter[equals]'' (FilterEquals params)
     @ family_entries ''filter[greaterOrEqual]'' (FilterGreaterOrEqual params)
     @ family_entries ''filter[greaterThan]'' (FilterGreaterThan params)
     @ family_entries ''filter[lessOrEqual]'' (FilterLessOrEqual params)
     @ family_entries ''filter[lessThan]'' (FilterLessThan params)
     @ family_entries ''filter[startsWith]'' (FilterStartsWith params)
     @ optional_entry ''include'' (Include params)
     @ [(''page[limit]'', Itoa limit)]"
  define fs where "fs = optional_entry ''sort'' (Sort params)"
  have ne: "map encode_entry es \<noteq> []" by (simp add: es_def)
  have "spec_link params resourceName limit offset =
      (resourceName @ ''?'' @ Join (map encode_entry es) ''&'' @ ''&'')
      @ ''page%5Boffset%5D='' @ Itoa offset
      @ concat (map (\<lambda>e. ''&'' @ e) (map encode_entry fs))" for offset
  proof -
    have "spec_link_entries params limit offset = es @ (''page[offset]'', Itoa offset) # fs"
      by (simp add: spec_link_entries_def es_def fs_def)
    then have "spec_link params resourceName limit offset =
        resourceName @ ''?'' @ Join (map encode_entry es @ encode_entry (''page[offset]'', Itoa offset)
          # map encode_entry fs) ''&''"
      by (simp add: spec_link_def link_text_def)
    also have "\<dots> = resourceName @ ''?'' @ (Join (map encode_entry es) ''&'' @ ''&''
          @ encode_entry (''page[offset]'', Itoa offset)
          @ concat (map (\<lambda>e. ''&'' @ e) (map encode_entry fs)))"
      using Join_split[OF ne] by simp
    finally show ?thesis
      by (simp add: encode_entry_def QueryEscape_Itoa QueryEscape_offset_key
          del: QueryEscape.simps)
  qed
  then show ?thesis by blast
qed

text \<open>
  C1. For every parameter struct and every page, the link is the resource name, \<open>?\<close>,
  and the URL-encoded entries of \<open>spec_link_entries\<close> joined by \<open>&\<close>: each value
  of each of the eight filter families under the name of its family, the sort string
  and the include string as they are (each left out when absent), the page limit, and
  the page offset \<open>page * pageLimit\<close>. The links of one request share the text before
  the \<open>page[offset]\<close> entry and the text after it: only the offset differs.
\<close>

theorem buildLink_preserves_parameters:
  "buildLink params resourceName pageLimit page =
     spec_link params resourceName (sint pageLimit) (sint (page * pageLimit))
   \<and> (\<exists>pre suf. \<forall>page'.
        buildLink params resourceName pageLimit page' =
          pre @ ''page%5Boffset%5D='' @ Itoa (sint (page' * pageLimit)) @ suf)"
proof
  show "buildLink params resourceName pageLimit page =
     spec_link params resourceName (sint pageLimit) (sint (page * pageLimit))"
    by (rule buildLink_spec_link)
  from spec_link_offset[of params resourceName "sint pageLimit"]
  obtain pre suf where
    "\<And>offset. spec_link params resourceName (sint pageLimit) offset =
       pre @ ''page%5Boffset%5D='' @ Itoa offset @ suf" by blast
  then have "\<forall>page'. buildLink params resourceName pageLimit page' =
          pre @ ''page%5Boffset%5D='' @ Itoa (sint (page' * pageLimit)) @ suf"
    by (simp add: buildLink_spec_link)
  then show "\<exists>pre suf. \<forall>page'.
        buildLink params resourceName pageLimit page' =
          pre @ ''page%5Boffset%5D='' @ Itoa (sint (page' * pageLimit)) @ suf" by blast
qed

text \<open>A link of a request with two equals filters, a contains filter and a sort.\<close>

theorem buildLink_preserves_parameters_witness:
  "buildLink example_params ''/tracks'' 10 2 =
     ''/tracks?filter%5Bcontains%5D=title%3Alove&filter%5Bequals%5D=artist%3AQueen&filter%5Bequals%5D=a+b%3Ac%26d&page%5Blimit%5D=10&page%5Boffset%5D=20&sort=-year%2Ctitle''"
proof -
  have "spec_link example_params ''/tracks'' (sint (10::int32)) (sint (2 * 10 :: int32)) =
     ''/tracks?filter%5Bcontains%5D=title%3Alove&filter%5Bequals%5D=artist%3AQueen&filter%5Bequals%5D=a+b%3Ac%26d&page%5Blimit%5D=10&page%5Boffset%5D=20&sort=-year%2Ctitle''"
    by code_simp
  then show ?thesis
    using buildLink_preserves_parameters [of example_params "''/tracks''" 10 2] by simp
qed

section \<open>The offsets of the four links\<close>

text \<open>
  With a positive limit, the products \<open>(totalPages - 1) * limit\<close>,
  \<open>currentPage * limit\<close> and \<open>(currentPage - 2) * limit\<close> stay within int32 whenever
  the link that carries them is emitted, so the offset a link encodes is the product of
  the integers.
\<close>

lemma sint_int32_num:
  "- 2147483648 \<le> k \<Longrightarrow> k < 2147483648 \<Longrightarrow> sint (word_of_int k :: int32) = k"
  using sint_int32_of_int[of k] by simp

lemma sint_int32_bounds: "- 2147483648 \<le> sint (x::int32)" "sint x < 2147483648"
  using sint_int32_range[of x] by simp_all

lemma sdiv_bounds_nonneg:
  assumes "0 < (L::int)" "0 \<le> A"
  shows "0 \<le> A sdiv L" "A sdiv L * L \<le> A" "A sdiv L \<le> A"
proof -
  have e: "A sdiv L = A div L" using assms by (rule_tac sdiv_nonneg) 
  show "0 \<le> A sdiv L" using assms e by (simp add: pos_imp_zdiv_nonneg_iff)
  have "A = A div L * L + A mod L" by simp
  moreover have "0 \<le> A mod L" using assms by simp
  ultimately have "A div L * L \<le> A" by linarith
  then show "A sdiv L * L \<le> A" using e by simp
  have "1 \<le> L" "0 \<le> A div L" using assms e \<open>0 \<le> A sdiv L\<close> by simp_all
  then have "A div L * 1 \<le> A div L * L" by (rule mult_left_mono)
  with \<open>A div L * L \<le> A\<close> show "A sdiv L \<le> A" using e by simp
qed

lemma sdiv_bounds_neg:
  assumes "0 < (L::int)" "A < 0"
  shows "A sdiv L \<le> 0" "A \<le> A sdiv L * L" "A \<le> A sdiv L"
proof -
  have n: "0 \<le> - A" using assms by simp
  show "A sdiv L \<le> 0" using sdiv_bounds_nonneg(1)[OF assms(1) n] by simp
  show "A \<le> A sdiv L * L" using sdiv_bounds_nonneg(2)[OF assms(1) n] by simp
  show "A \<le> A sdiv L" using sdiv_bounds_nonneg(3)[OF assms(1) n] by simp
qed

lemma sint_int32_div:
  assumes "0 < sint l"
  shows "sint (int32_div a l) = sint a sdiv sint l"
proof -
  note r = sint_int32_bounds[of a]
  have "- 2147483648 \<le> sint a sdiv sint l \<and> sint a sdiv sint l < 2147483648"
  proof (cases "0 \<le> sint a")
    case True
    then show ?thesis
      using sdiv_bounds_nonneg(1,3)[OF assms True] r by linarith
  next
    case False
    then have n: "sint a < 0" by simp
    show ?thesis using sdiv_bounds_neg(1,3)[OF assms n] r by linarith
  qed
  then show ?thesis by (simp add: int32_div_def sint_int32_num)
qed

lemma sint_of_product:
  assumes "- 2147483648 \<le> a * sint l" "a * sint l < 2147483648" "x = word_of_int a"
  shows "sint ((x::int32) * l) = a * sint l"
proof -
  have "x * l = word_of_int (a * sint l)" using assms(3) by simp
  then show ?thesis using assms(1,2) by (simp only: sint_int32_num)
qed

lemma totalPages_times_limit:
  assumes "0 < sint l"
  shows "sint (int32_div t l) * sint l < 2147483648"
proof (cases "0 \<le> sint t")
  case True
  then show ?thesis
    using sdiv_bounds_nonneg(2)[OF assms True] sint_int32_bounds[of t]
    by (simp add: sint_int32_div[OF assms])
next
  case False
  then have n: "sint t < 0" by simp
  have "sint t sdiv sint l * sint l \<le> 0"
    using sdiv_bounds_neg(1)[OF assms n] assms by (simp add: mult_le_0_iff)
  then show ?thesis by (simp add: sint_int32_div[OF assms])
qed

lemma last_offset:
  assumes l: "0 < sint l" and tp: "0 < sint (int32_div t l)"
  shows "sint ((int32_div t l - 1) * l) = (sint (int32_div t l) - 1) * sint l"
proof (rule sint_of_product)
  let ?TP = "sint (int32_div t l)"
  have "(?TP - 1) * sint l \<le> ?TP * sint l" using l by (intro mult_right_mono) simp_all
  then show "(?TP - 1) * sint l < 2147483648" using totalPages_times_limit[OF l, of t] by linarith
  have "0 \<le> (?TP - 1) * sint l" using l tp by simp
  then show "- 2147483648 \<le> (?TP - 1) * sint l" by linarith
  show "int32_div t l - 1 = word_of_int (?TP - 1)" by simp
qed

lemma currentPage_cases:
  assumes l: "0 < sint l"
  shows "sint (int32_div off l + 1) = sint off sdiv sint l + 1
         \<or> (sint (int32_div off l + 1) = - 2147483648 \<and> sint l = 1)"
proof (cases "sint off sdiv sint l + 1 < 2147483648")
  case True
  then show ?thesis using sint_add1[of "int32_div off l"] by (simp add: sint_int32_div[OF l])
next
  case False
  have q: "sint (int32_div off l) = sint off sdiv sint l" by (rule sint_int32_div[OF l])
  have "sint (int32_div off l) < 2147483648" by (rule sint_int32_bounds)
  with False q have Q: "sint off sdiv sint l = 2147483647" by simp
  then have pos: "0 \<le> sint off" using sdiv_bounds_neg(1)[OF l, of "sint off"] by linarith
  have "2147483647 * sint l \<le> sint off" using sdiv_bounds_nonneg(2)[OF l pos] Q by simp
  then have L: "sint l = 1" using l sint_int32_bounds[of off] by linarith
  have "int32_div off l = word_of_int (sint (int32_div off l))" by simp
  then have "int32_div off l = 2147483647" unfolding q Q by simp
  then have "sint (int32_div off l + 1) = - 2147483648" by simp
  with L show ?thesis by simp
qed

lemma next_offset:
  assumes l: "0 < sint l" and lt: "sint (int32_div off l + 1) < sint (int32_div t l)"
  shows "sint ((int32_div off l + 1) * l) = sint (int32_div off l + 1) * sint l"
proof (rule sint_of_product)
  let ?CP = "sint (int32_div off l + 1)" and ?TP = "sint (int32_div t l)"
  show "int32_div off l + 1 = word_of_int ?CP" by simp
  have "?CP * sint l \<le> ?TP * sint l" using l lt by (intro mult_right_mono) simp_all
  then show "?CP * sint l < 2147483648" using totalPages_times_limit[OF l, of t] by linarith
  show "- 2147483648 \<le> ?CP * sint l"
    using currentPage_cases[OF l, of off]
  proof
    assume "?CP = - 2147483648 \<and> sint l = 1"
    then show ?thesis by simp
  next
    assume c: "?CP = sint off sdiv sint l + 1"
    have "- 2147483648 \<le> sint off sdiv sint l * sint l"
    proof (cases "0 \<le> sint off")
      case True
      have "0 \<le> sint off sdiv sint l * sint l"
        using sdiv_bounds_nonneg(1)[OF l True] l by simp
      then show ?thesis by linarith
    next
      case False
      then have n: "sint off < 0" by simp
      show ?thesis using sdiv_bounds_neg(2)[OF l n] sint_int32_bounds[of off] by linarith
    qed
    moreover have "?CP * sint l = sint off sdiv sint l * sint l + sint l"
      unfolding c by (simp add: algebra_simps)
    ultimately show ?thesis using l by linarith
  qed
qed

lemma prev_offset:
  assumes l: "0 < sint l" and gt: "1 < sint (int32_div off l + 1)"
  shows "sint ((int32_div off l + 1 - 2) * l) = (sint (int32_div off l + 1) - 2) * sint l"
proof (rule sint_of_product)
  let ?CP = "sint (int32_div off l + 1)"
  show "int32_div off l + 1 - 2 = word_of_int (?CP - 2)" by simp
  have c: "?CP = sint off sdiv sint l + 1" using currentPage_cases[OF l, of off] gt by auto
  then have Q: "1 \<le> sint off sdiv sint l" using gt by simp
  then have pos: "0 \<le> sint off" using sdiv_bounds_neg(1)[OF l, of "sint off"] by linarith
  have "(?CP - 2) * sint l \<le> sint off sdiv sint l * sint l"
    unfolding c using l by (intro mult_right_mono) simp_all
  then show "(?CP - 2) * sint l < 2147483648"
    using sdiv_bounds_nonneg(2)[OF l pos] sint_int32_bounds[of off] by linarith
  have "0 \<le> (?CP - 2) * sint l" using l gt by simp
  then show "- 2147483648 \<le> (?CP - 2) * sint l" by linarith
qed

text \<open>
  C3. For a request with a page offset and a positive page limit: \<open>first\<close> (offset 0)
  and \<open>last\<close> (offset \<open>(totalPages - 1) * limit\<close>) are present exactly when
  \<open>totalPages > 0\<close>; \<open>next\<close> (offset \<open>currentPage * limit\<close>) exactly when
  \<open>currentPage < totalPages\<close>; \<open>prev\<close> (offset \<open>(currentPage - 2) * limit\<close>) exactly
  when \<open>currentPage > 1\<close>. \<open>totalPages\<close> and \<open>currentPage\<close> are the values the
  metadata reports.
\<close>

theorem pagination_links:
  assumes lim: "PageLimit params = Some pageLimit"
    and off: "PageOffset params = Some pageOffset"
    and pl: "0 < sint pageLimit"
  shows "\<exists>totalPages currentPage.
     buildPaginationLinksAndMeta totalItems params resourceName =
       Inr (\<lparr>First = (if 0 < sint totalPages
                      then Some (spec_link params resourceName (sint pageLimit) 0) else None),
             Last = (if 0 < sint totalPages
                     then Some (spec_link params resourceName (sint pageLimit)
                                  ((sint totalPages - 1) * sint pageLimit))
                     else None),
             Next = (if sint currentPage < sint totalPages
                     then Some (spec_link params resourceName (sint pageLimit)
                                  (sint currentPage * sint pageLimit))
                     else None),
             Prev = (if 1 < sint currentPage
                     then Some (spec_link params resourceName (sint pageLimit)
                                  ((sint currentPage - 2) * sint pageLimit))
                     else None)\<rparr>,
            \<lparr>CurrentPage = Some currentPage, TotalItems = Some totalItems,
             TotalPages = Some totalPages\<rparr>)"
proof -
  define tp where "tp = int32_div (totalItems + pageLimit - 1) pageLimit"
  define cp where "cp = int32_div pageOffset pageLimit + 1"
  have nz: "pageLimit \<noteq> 0" using pl by auto
  have eq: "buildPaginationLinksAndMeta totalItems params resourceName =
       Inr (\<lparr>First = (if 0 <s tp then Some (buildLink params resourceName pageLimit 0) else None),
             Last = (if 0 <s tp then Some (buildLink params resourceName pageLimit (tp - 1))
                     else None),
             Next = (if cp <s tp then Some (buildLink params resourceName pageLimit cp) else None),
             Prev = (if 1 <s cp then Some (buildLink params resourceName pageLimit (cp - 2))
                     else None)\<rparr>,
            \<lparr>CurrentPage = Some cp, TotalItems = Some totalItems, TotalPages = Some tp\<rparr>)"
    unfolding tp_def cp_def buildPaginationLinksAndMeta_def Let_def using lim off nz by simp
  have first: "buildLink params resourceName pageLimit 0
                 = spec_link params resourceName (sint pageLimit) 0"
    by (simp add: buildLink_spec_link)
  have last: "buildLink params resourceName pageLimit (tp - 1)
                = spec_link params resourceName (sint pageLimit) ((sint tp - 1) * sint pageLimit)"
    if "0 < sint tp"
    using last_offset[OF pl, of "totalItems + pageLimit - 1"] that
    by (simp add: buildLink_spec_link tp_def)
  have "next": "buildLink params resourceName pageLimit cp
                = spec_link params resourceName (sint pageLimit) (sint cp * sint pageLimit)"
    if "sint cp < sint tp"
    using next_offset[OF pl, of pageOffset "totalItems + pageLimit - 1"] that
    unfolding buildLink_spec_link tp_def cp_def by simp
  have prev: "buildLink params resourceName pageLimit (cp - 2)
                = spec_link params resourceName (sint pageLimit) ((sint cp - 2) * sint pageLimit)"
    if "1 < sint cp"
    using prev_offset[OF pl, of pageOffset] that
    unfolding buildLink_spec_link tp_def cp_def by simp
  show ?thesis
    apply (rule exI[of _ tp], rule exI[of _ cp])
    unfolding eq
    using first last "next" prev
    by (simp add: word_sless_alt)
qed

text \<open>
  No item, limit 10, offset 0: page 1 of 0 and no link. 25 items, limit 10, offset 20:
  page 3 of 3, with \<open>first\<close>, \<open>last\<close> and \<open>prev\<close>.
\<close>

theorem pagination_links_witness:
  "buildPaginationLinksAndMeta 0 (page_params 0 10) ''/tracks'' =
     Inr (\<lparr>First = None, Last = None, Next = None, Prev = None\<rparr>,
          \<lparr>CurrentPage = Some 1, TotalItems = Some 0, TotalPages = Some 0\<rparr>)
   \<and> buildPaginationLinksAndMeta 25 (page_params 20 10) ''/tracks'' =
     Inr (\<lparr>First = Some ''/tracks?page%5Blimit%5D=10&page%5Boffset%5D=0'',
           Last = Some ''/tracks?page%5Blimit%5D=10&page%5Boffset%5D=20'',
           Next = None,
           Prev = Some ''/tracks?page%5Blimit%5D=10&page%5Boffset%5D=10''\<rparr>,
          \<lparr>CurrentPage = Some 3, TotalItems = Some 25, TotalPages = Some 3\<rparr>)"
proof -
  have m0: "snd (projr (buildPaginationLinksAndMeta 0 (page_params 0 10) ''/tracks'')) =
      \<lparr>CurrentPage = Some 1, TotalItems = Some 0, TotalPages = Some 0\<rparr>"
    by (simp add: buildPaginationLinksAndMeta_def page_params_def int32_div_def Let_def)
  have m1: "snd (projr (buildPaginationLinksAndMeta 25 (page_params 20 10) ''/tracks'')) =
      \<lparr>CurrentPage = Some 3, TotalItems = Some 25, TotalPages = Some 3\<rparr>"
    by (simp add: buildPaginationLinksAndMeta_def page_params_def int32_div_def Let_def)
  have s: "spec_link (page_params 20 10) ''/tracks'' 10 0 = ''/tracks?page%5Blimit%5D=10&page%5Boffset%5D=0''"
    "spec_link (page_params 20 10) ''/tracks'' 10 20 = ''/tracks?page%5Blimit%5D=10&page%5Boffset%5D=20''"
    "spec_link (page_params 20 10) ''/tracks'' 10 10 = ''/tracks?page%5Blimit%5D=10&page%5Boffset%5D=10''"
    by code_simp+
  from pagination_links [of "page_params 0 10" 10 0 0 "''/tracks''"] m0
  have a: "buildPaginationLinksAndMeta 0 (page_params 0 10) ''/tracks'' =
     Inr (\<lparr>First = None, Last = None, Next = None, Prev = None\<rparr>,
          \<lparr>CurrentPage = Some 1, TotalItems = Some 0, TotalPages = Some 0\<rparr>)"
    by (auto simp: page_params_def)
  from pagination_links [of "page_params 20 10" 10 20 25 "''/tracks''"] m1 s
  have b: "buildPaginationLinksAndMeta 25 (page_params 20 10) ''/tracks'' =
     Inr (\<lparr>First = Some ''/tracks?page%5Blimit%5D=10&page%5Boffset%5D=0'',
           Last = Some ''/tracks?page%5Blimit%5D=10&page%5Boffset%5D=20'',
           Next = None,
           Prev = Some ''/tracks?page%5Blimit%5D=10&page%5Boffset%5D=10''\<rparr>,
          \<lparr>CurrentPage = Some 3, TotalItems = Some 25, TotalPages = Some 3\<rparr>)"
    by (auto simp: page_params_def)
  from a b show ?thesis by simp
qed

end
